theory Spec2Isabelle
  imports Main
begin

section \<open>The failing-template validator of helm-unittest\<close>

text \<open>
  The development embeds \<^verbatim>\<open>FailedTemplateValidator\<close> (package \<^verbatim>\<open>validators\<close>) with its five
  methods \<^verbatim>\<open>failInfo\<close>, \<^verbatim>\<open>validateManifests\<close>, \<^verbatim>\<open>validateErrorPattern\<close>,
  \<^verbatim>\<open>validateErrorMessage\<close> and \<^verbatim>\<open>Validate\<close>.

  Go values of type \<^verbatim>\<open>interface{}\<close> are a datatype, the panic of a failed type assertion
  \<^verbatim>\<open>actual.(string)\<close> is the left summand of the result, the \<^verbatim>\<open>for ... range\<close> loop is a
  recursive function over the manifests that carries the loop variables. The calls to
  \<^verbatim>\<open>fmt.Println\<close> and to the logger only write trace output and are left out.
\<close>

subsection \<open>Values, manifests and the context\<close>

text \<open>
  A value of type \<^verbatim>\<open>interface{}\<close>: \<^verbatim>\<open>nil\<close>, a string, or a value of any other dynamic type.
  The validator only ever tests for \<^verbatim>\<open>nil\<close>, asserts \<^verbatim>\<open>string\<close> and prints with the verb
  \<^verbatim>\<open>%s\<close>, so a value of another type is represented by what \<^verbatim>\<open>%s\<close> prints for it.
\<close>

datatype go_value = Nil | Str string | Other string

text \<open>\<^verbatim>\<open>common.K8sManifest\<close> is \<^verbatim>\<open>map[string]interface{}\<close>; reading a missing key gives \<^verbatim>\<open>nil\<close>.\<close>

type_synonym K8sManifest = "string \<rightharpoonup> go_value"

definition index_manifest :: "K8sManifest \<Rightarrow> string \<Rightarrow> go_value" where
  "index_manifest m k = (case m k of None \<Rightarrow> Nil | Some v \<Rightarrow> v)"

text \<open>
  Modelled from the spec: the constant \<^verbatim>\<open>common.RAW\<close> is declared outside the available
  sources; the spec calls it the manifest's raw/source field. Only its being one fixed key
  matters.
\<close>

definition RAW :: string where
  "RAW = ''raw''"

text \<open>
  Modelled from the spec: the type \<^verbatim>\<open>ValidateContext\<close> and its method \<^verbatim>\<open>getManifests\<close> are
  declared outside the available sources. The spec gives the context as the manifest
  collection, the flags negative, fail-fast and strict, and an optional render error. Of a
  render error the validator reads only the message \<^verbatim>\<open>RenderError.Error()\<close>, so the field
  holds that message.
\<close>

record ValidateContext =
  Manifests :: "K8sManifest list"
  Negative :: bool
  FailFast :: bool
  Strict :: bool
  RenderError :: "string option"

definition getManifests :: "ValidateContext \<Rightarrow> K8sManifest list" where
  "getManifests c = Manifests c"

subsection \<open>Diagnostics\<close>

text \<open>
  Every diagnostic line of the validator comes out of a call
  \<^verbatim>\<open>splitInfof(format, manifestIndex, actualIndex, replacements...)\<close>, where the format is the
  constant \<^verbatim>\<open>errorFormat\<close> or the result of \<^verbatim>\<open>setFailFormat(not, b1, b2, b3, customMessage)\<close>.
  These three are declared outside the available sources. They are kept uninterpreted: a
  value \<open>SplitInfof f m i rs\<close> stands for the lines that the call returns, and a list of such
  values for the concatenation of those lines in that order, which is all the validator does
  with them (\<^verbatim>\<open>append\<close> and \<^verbatim>\<open>return\<close>).
\<close>

datatype format = errorFormat | setFailFormat bool bool bool bool string

datatype info = SplitInfof format int int "string list"

fun manifestIndex_of :: "info \<Rightarrow> int" where
  "manifestIndex_of (SplitInfof f m i rs) = m"

text \<open>What \<^verbatim>\<open>fmt.Sprintf("%s", actual)\<close> returns.\<close>

fun sprintf_s :: "go_value \<Rightarrow> string" where
  "sprintf_s Nil = ''%!s(<nil>)''"
| "sprintf_s (Str s) = s"
| "sprintf_s (Other shown) = shown"

text \<open>\<^verbatim>\<open>cmp.Or\<close> on two strings: the first argument that is not the zero value, else the zero value.\<close>

definition cmp_Or :: "string \<Rightarrow> string \<Rightarrow> string" where
  "cmp_Or x y = (if x \<noteq> [] then x else if y \<noteq> [] then y else [])"

subsection \<open>The validator\<close>

record FailedTemplateValidator =
  ErrorMessage :: string
  ErrorPattern :: string

definition failInfo :: "FailedTemplateValidator \<Rightarrow> go_value \<Rightarrow> int \<Rightarrow> int \<Rightarrow> bool \<Rightarrow> info list" where
  "failInfo a actual manifestIndex actualIndex not' =
     (let customMessage = (if ErrorPattern a \<noteq> [] then '' to match'' else '' to equal'');
          message = cmp_Or (ErrorMessage a) (ErrorPattern a)
      in if not'
         then [SplitInfof (setFailFormat not' False False False customMessage)
                 manifestIndex actualIndex [message]]
         else [SplitInfof (setFailFormat not' False True False customMessage)
                 manifestIndex actualIndex [message, sprintf_s actual]])"

text \<open>A failed type assertion \<^verbatim>\<open>actual.(string)\<close> panics.\<close>

datatype panic = TypeAssertionPanic

type_synonym result = "panic + bool \<times> info list"

text \<open>
  The package \<^verbatim>\<open>regexp\<close> is Go's standard library. \<^verbatim>\<open>regexp.Compile\<close> is a parameter of the
  model: it maps a pattern to the message of the compile error or to the compiled
  expression, and a compiled expression is represented by its method \<^verbatim>\<open>MatchString\<close>.
\<close>

type_synonym regexp_Compile = "string \<Rightarrow> string + (string \<Rightarrow> bool)"

text \<open>
  The operands of \<^verbatim>\<open>&&\<close> are evaluated left to right and the right one only if the left one
  is true: \<^verbatim>\<open>actual != nil && f(actual.(string))\<close>.
\<close>

fun nonnil_and_string :: "go_value \<Rightarrow> (string \<Rightarrow> bool) \<Rightarrow> panic + bool" where
  "nonnil_and_string Nil f = Inr False"
| "nonnil_and_string (Str s) f = Inr (f s)"
| "nonnil_and_string (Other shown) f = Inl TypeAssertionPanic"

definition validateErrorPattern ::
  "regexp_Compile \<Rightarrow> FailedTemplateValidator \<Rightarrow> go_value \<Rightarrow> int \<Rightarrow> int \<Rightarrow> ValidateContext \<Rightarrow> result" where
  "validateErrorPattern compile a actual manifestIndex actualIndex context =
     (case compile (ErrorPattern a) of
        Inl err \<Rightarrow> Inr (False, [SplitInfof errorFormat (-1) (-1) [err]])
      | Inr p \<Rightarrow>
          (case nonnil_and_string actual p of
             Inl pa \<Rightarrow> Inl pa
           | Inr matched \<Rightarrow>
               if matched = Negative context
               then Inr (False, failInfo a actual manifestIndex actualIndex (Negative context))
               else Inr (True, [])))"

definition validateErrorMessage ::
  "FailedTemplateValidator \<Rightarrow> go_value \<Rightarrow> int \<Rightarrow> int \<Rightarrow> ValidateContext \<Rightarrow> result" where
  "validateErrorMessage a actual manifestIndex actualIndex context =
     (case nonnil_and_string actual (\<lambda>s. ErrorMessage a = s) of
        Inl pa \<Rightarrow> Inl pa
      | Inr equal \<Rightarrow>
          if equal = Negative context
          then Inr (False, failInfo a actual manifestIndex actualIndex (Negative context))
          else Inr (True, []))"

text \<open>
  Modelled from the spec: the helper \<^verbatim>\<open>determineSuccess(idx, validateSuccess, currentSuccess)\<close>
  is declared outside the available sources. The spec: overall success starts true; any
  single manifest failure sets overall success false for the remainder of the evaluation.
\<close>

definition determineSuccess :: "int \<Rightarrow> bool \<Rightarrow> bool \<Rightarrow> bool" where
  "determineSuccess idx validateSuccess currentSuccess = (validateSuccess \<and> currentSuccess)"

text \<open>The check of one manifest: the \<^verbatim>\<open>if\<close> chain in the body of the loop.\<close>

definition checkManifest ::
  "regexp_Compile \<Rightarrow> FailedTemplateValidator \<Rightarrow> ValidateContext \<Rightarrow> int \<Rightarrow> K8sManifest \<Rightarrow> result" where
  "checkManifest compile a context idx manifest =
     (let actual = index_manifest manifest RAW
      in if ErrorPattern a \<noteq> [] then validateErrorPattern compile a actual idx (-1) context
         else if ErrorMessage a \<noteq> [] then validateErrorMessage a actual idx (-1) context
         else Inr (True, []))"

text \<open>
  The loop of \<^verbatim>\<open>validateManifests\<close> from index \<open>idx\<close> on, over the manifests still to visit,
  with the current values of \<^verbatim>\<open>validateSuccess\<close> and \<^verbatim>\<open>validateErrors\<close>. \<^verbatim>\<open>continue\<close> is the
  recursive call with both unchanged, \<^verbatim>\<open>break\<close> returns them.
\<close>

fun manifestsLoop ::
  "regexp_Compile \<Rightarrow> FailedTemplateValidator \<Rightarrow> ValidateContext \<Rightarrow> int \<Rightarrow> K8sManifest list \<Rightarrow>
   bool \<Rightarrow> info list \<Rightarrow> result" where
  "manifestsLoop compile a context idx [] validateSuccess validateErrors =
     Inr (validateSuccess, validateErrors)"
| "manifestsLoop compile a context idx (manifest # rest) validateSuccess validateErrors =
     (if (ErrorMessage a = [] \<and> ErrorPattern a = []) \<and> \<not> Negative context
      then manifestsLoop compile a context (idx + 1) rest validateSuccess validateErrors
      else
        (case checkManifest compile a context idx manifest of
           Inl pa \<Rightarrow> Inl pa
         | Inr (currentSuccess, validateSingleErrors) \<Rightarrow>
             (let validateErrors' = validateErrors @ validateSingleErrors;
                  validateSuccess' = determineSuccess idx validateSuccess currentSuccess
              in if \<not> validateSuccess' \<and> FailFast context
                 then Inr (validateSuccess', validateErrors')
                 else manifestsLoop compile a context (idx + 1) rest
                        validateSuccess' validateErrors')))"

definition validateManifests ::
  "regexp_Compile \<Rightarrow> FailedTemplateValidator \<Rightarrow> K8sManifest list \<Rightarrow> ValidateContext \<Rightarrow> result" where
  "validateManifests compile a manifests context =
     (case manifestsLoop compile a context 0 manifests True [] of
        Inl pa \<Rightarrow> Inl pa
      | Inr (validateSuccess, validateErrors) \<Rightarrow>
          if length manifests = 0 \<and> \<not> Negative context
          then Inr (False,
                 validateErrors @ failInfo a (Str ''No failed document'') (-1) (-1) (Negative context))
          else Inr (validateSuccess, validateErrors))"

definition Validate :: "regexp_Compile \<Rightarrow> FailedTemplateValidator \<Rightarrow> ValidateContext \<Rightarrow> result" where
  "Validate compile a context =
     (let manifests = getManifests context
      in if ErrorMessage a \<noteq> [] \<and> ErrorPattern a \<noteq> []
         then Inr (False, [] @ [SplitInfof errorFormat (-1) (-1)
                 [''single attribute 'errorMessage' or 'errorPattern' supported at the same time'']])
         else
           (case RenderError context of
              Some err \<Rightarrow>
                if ErrorPattern a \<noteq> [] then validateErrorPattern compile a (Str err) (-1) (-1) context
                else if ErrorMessage a \<noteq> [] then validateErrorMessage a (Str err) (-1) (-1) context
                else Inr (True, [])
            | None \<Rightarrow>
                (case validateManifests compile a manifests context of
                   Inl pa \<Rightarrow> Inl pa
                 | Inr (validateSuccess, errorsToAppend) \<Rightarrow>
                     Inr (validateSuccess, [] @ errorsToAppend))))"

subsection \<open>A fragment of Go's regular expressions\<close>

text \<open>
  The theorems on the validator hold for every \<open>compile\<close>. To run the validator on concrete
  patterns this section gives one: the fragment of the syntax of package \<^verbatim>\<open>regexp\<close> made of
  literal ASCII characters, \<^verbatim>\<open>.\<close> (any character but newline), the postfix operators \<^verbatim>\<open>*\<close>,
  \<^verbatim>\<open>+\<close>, \<^verbatim>\<open>?\<close> (each possibly followed by the non-greedy mark \<^verbatim>\<open>?\<close>), alternation \<^verbatim>\<open>|\<close> and
  groups \<^verbatim>\<open>(...)\<close>. It follows the documentation of the package: \<^verbatim>\<open>MatchString\<close> reports
  whether the string contains any match of the expression. The model reads strings byte by
  byte, so it stands for the package on ASCII patterns and ASCII strings only, where a byte
  is a character; it is used at such inputs only. A pattern that uses \<^verbatim>\<open>[\<close>, \<^verbatim>\<open>{\<close>, a
  backslash, \<^verbatim>\<open>^\<close>, \<^verbatim>\<open>$\<close>, \<^verbatim>\<open>(?\<close> or a byte outside ASCII is outside the fragment; on such a
  pattern the function below reports an error of its own, which says nothing about the
  package.
\<close>

datatype rexp =
    NoMatch
  | EmptyMatch
  | Literal char
  | AnyCharNotNL
  | Concat rexp rexp
  | Alternate rexp rexp
  | Star rexp
  | Plus rexp
  | Quest rexp

text \<open>The strings an expression matches as a whole.\<close>

definition conc :: "string set \<Rightarrow> string set \<Rightarrow> string set" where
  "conc A B = {u @ v | u v. u \<in> A \<and> v \<in> B}"

inductive_set iter :: "string set \<Rightarrow> string set" for A :: "string set" where
  iter_nil: "[] \<in> iter A"
| iter_app: "u \<in> A \<Longrightarrow> v \<in> iter A \<Longrightarrow> u @ v \<in> iter A"

fun lang :: "rexp \<Rightarrow> string set" where
  "lang NoMatch = {}"
| "lang EmptyMatch = {[]}"
| "lang (Literal c) = {[c]}"
| "lang AnyCharNotNL = {[c] | c. c \<noteq> CHR 0x0A}"
| "lang (Concat r s) = conc (lang r) (lang s)"
| "lang (Alternate r s) = lang r \<union> lang s"
| "lang (Star r) = iter (lang r)"
| "lang (Plus r) = conc (lang r) (iter (lang r))"
| "lang (Quest r) = insert [] (lang r)"

text \<open>Matching by derivatives: \<open>deriv c r\<close> matches what \<open>r\<close> matches after a leading \<open>c\<close>.\<close>

fun nullable :: "rexp \<Rightarrow> bool" where
  "nullable NoMatch = False"
| "nullable EmptyMatch = True"
| "nullable (Literal c) = False"
| "nullable AnyCharNotNL = False"
| "nullable (Concat r s) = (nullable r \<and> nullable s)"
| "nullable (Alternate r s) = (nullable r \<or> nullable s)"
| "nullable (Star r) = True"
| "nullable (Plus r) = nullable r"
| "nullable (Quest r) = True"

fun deriv :: "char \<Rightarrow> rexp \<Rightarrow> rexp" where
  "deriv c NoMatch = NoMatch"
| "deriv c EmptyMatch = NoMatch"
| "deriv c (Literal d) = (if c = d then EmptyMatch else NoMatch)"
| "deriv c AnyCharNotNL = (if c = CHR 0x0A then NoMatch else EmptyMatch)"
| "deriv c (Concat r s) =
     (if nullable r then Alternate (Concat (deriv c r) s) (deriv c s) else Concat (deriv c r) s)"
| "deriv c (Alternate r s) = Alternate (deriv c r) (deriv c s)"
| "deriv c (Star r) = Concat (deriv c r) (Star r)"
| "deriv c (Plus r) = Concat (deriv c r) (Star r)"
| "deriv c (Quest r) = deriv c r"

text \<open>The whole string matches.\<close>

fun fullMatch :: "rexp \<Rightarrow> string \<Rightarrow> bool" where
  "fullMatch r [] = nullable r"
| "fullMatch r (c # cs) = fullMatch (deriv c r) cs"

text \<open>Some prefix of the string matches.\<close>

fun prefixMatch :: "rexp \<Rightarrow> string \<Rightarrow> bool" where
  "prefixMatch r [] = nullable r"
| "prefixMatch r (c # cs) = (nullable r \<or> prefixMatch (deriv c r) cs)"

text \<open>\<^verbatim>\<open>MatchString\<close>: a match starts at some position of the string.\<close>

fun MatchString :: "rexp \<Rightarrow> string \<Rightarrow> bool" where
  "MatchString r [] = nullable r"
| "MatchString r (c # cs) = (prefixMatch r (c # cs) \<or> MatchString r cs)"

text \<open>
  The parser reads the pattern from left to right, as the one of package \<^verbatim>\<open>regexp/syntax\<close>
  does. It keeps the alternatives finished so far and the items of the current
  concatenation (both latest first), a stack of these pairs for the groups that are open,
  and whether the last token was a repetition operator: a repetition operator cannot follow
  another one, except for \<^verbatim>\<open>?\<close> as the non-greedy mark, which changes which match is found
  but not whether there is one.
\<close>

datatype repeat_state = NoRepeat | Repeated string | RepeatedLazy string

datatype parse_error =
    MissingParen
  | UnexpectedParen
  | MissingRepeatArgument string
  | InvalidRepeatOp string
  | OutsideFragment

fun concat_of :: "rexp list \<Rightarrow> rexp" where
  "concat_of [] = EmptyMatch"
| "concat_of [r] = r"
| "concat_of (r # rs) = Concat r (concat_of rs)"

fun alternate_of :: "rexp list \<Rightarrow> rexp" where
  "alternate_of [] = NoMatch"
| "alternate_of [r] = r"
| "alternate_of (r # rs) = Alternate r (alternate_of rs)"

definition close_group :: "rexp list \<Rightarrow> rexp list \<Rightarrow> rexp" where
  "close_group alts cur = alternate_of (rev (concat_of (rev cur) # alts))"

definition repeat_op :: "char \<Rightarrow> rexp \<Rightarrow> rexp" where
  "repeat_op c r = (if c = CHR ''*'' then Star r else if c = CHR ''+'' then Plus r else Quest r)"

definition op_text :: "char \<Rightarrow> string \<Rightarrow> string" where
  "op_text c cs = (case cs of d # ds \<Rightarrow> if d = CHR ''?'' then [c, d] else [c] | [] \<Rightarrow> [c])"

fun parse ::
  "string \<Rightarrow> (rexp list \<times> rexp list) list \<Rightarrow> rexp list \<Rightarrow> rexp list \<Rightarrow> repeat_state \<Rightarrow>
   parse_error + rexp" where
  "parse [] stack alts cur st =
     (if stack = [] then Inr (close_group alts cur) else Inl MissingParen)"
| "parse (c # cs) stack alts cur st =
     (if c = CHR ''('' then
        (case cs of
           d # ds \<Rightarrow> if d = CHR ''?'' then Inl OutsideFragment
                     else parse cs ((alts, cur) # stack) [] [] NoRepeat
         | [] \<Rightarrow> parse cs ((alts, cur) # stack) [] [] NoRepeat)
      else if c = CHR '')'' then
        (case stack of
           [] \<Rightarrow> Inl UnexpectedParen
         | (alts', cur') # stack' \<Rightarrow> parse cs stack' alts' (close_group alts cur # cur') NoRepeat)
      else if c = CHR ''|'' then parse cs stack (concat_of (rev cur) # alts) [] NoRepeat
      else if c = CHR ''.'' then parse cs stack alts (AnyCharNotNL # cur) NoRepeat
      else if c = CHR ''*'' \<or> c = CHR ''+'' \<or> c = CHR ''?'' then
        (case st of
           Repeated t \<Rightarrow>
             if c = CHR ''?'' then parse cs stack alts cur (RepeatedLazy (t @ [c]))
             else Inl (InvalidRepeatOp (t @ op_text c cs))
         | RepeatedLazy t \<Rightarrow> Inl (InvalidRepeatOp (t @ op_text c cs))
         | NoRepeat \<Rightarrow>
             (case cur of
                [] \<Rightarrow> Inl (MissingRepeatArgument (op_text c cs))
              | r # rs \<Rightarrow> parse cs stack alts (repeat_op c r # rs) (Repeated [c])))
      else if c = CHR ''['' \<or> c = CHR ''{'' \<or> c = CHR 0x5C \<or> c = CHR ''^'' \<or> c = CHR ''$'' \<or>
              digit7 c
        then Inl OutsideFragment
      else parse cs stack alts (Literal c # cur) NoRepeat)"

fun error_text :: "string \<Rightarrow> parse_error \<Rightarrow> string" where
  "error_text whole MissingParen = ''error parsing regexp: missing closing ): `'' @ whole @ ''`''"
| "error_text whole UnexpectedParen = ''error parsing regexp: unexpected ): `'' @ whole @ ''`''"
| "error_text whole (MissingRepeatArgument t) =
     ''error parsing regexp: missing argument to repetition operator: `'' @ t @ ''`''"
| "error_text whole (InvalidRepeatOp t) =
     ''error parsing regexp: invalid nested repetition operator: `'' @ t @ ''`''"
| "error_text whole OutsideFragment = ''pattern outside the modelled fragment: `'' @ whole @ ''`''"

definition parse_pattern :: "string \<Rightarrow> parse_error + rexp" where
  "parse_pattern pattern = parse pattern [] [] [] NoRepeat"

definition go_Compile :: regexp_Compile where
  "go_Compile pattern =
     (case parse_pattern pattern of
        Inl e \<Rightarrow> Inl (error_text pattern e)
      | Inr r \<Rightarrow> Inr (MatchString r))"

subsection \<open>The words of the claims\<close>

text \<open>
  A manifest matches a compiled pattern when the condition
  \<^verbatim>\<open>actual != nil && p.MatchString(actual.(string))\<close> on its raw field is true.
\<close>

definition manifestMatches :: "(string \<Rightarrow> bool) \<Rightarrow> K8sManifest \<Rightarrow> bool" where
  "manifestMatches p m = (nonnil_and_string (index_manifest m RAW) p = Inr True)"

definition anyManifestMatches :: "(string \<Rightarrow> bool) \<Rightarrow> K8sManifest list \<Rightarrow> bool" where
  "anyManifestMatches p ms = list_ex (manifestMatches p) ms"

definition everyManifestMatches :: "(string \<Rightarrow> bool) \<Rightarrow> K8sManifest list \<Rightarrow> bool" where
  "everyManifestMatches p ms = list_all (manifestMatches p) ms"

text \<open>The raw field of a manifest is \<^verbatim>\<open>nil\<close> (or missing) or a string: the type assertion is safe.\<close>

definition rawIsString :: "K8sManifest \<Rightarrow> bool" where
  "rawIsString m = (case index_manifest m RAW of Other shown \<Rightarrow> False | _ \<Rightarrow> True)"

text \<open>The validator that skips every manifest: the zero value, in a context that is not negated.\<close>

definition skipsManifests :: "FailedTemplateValidator \<Rightarrow> ValidateContext \<Rightarrow> bool" where
  "skipsManifests a context = ((ErrorMessage a = [] \<and> ErrorPattern a = []) \<and> \<not> Negative context)"

text \<open>
  The results of the check on each manifest of a list, the first one at index \<open>idx\<close>: what
  the loop computes for each manifest that it visits without skipping it.
\<close>

fun checksFrom ::
  "regexp_Compile \<Rightarrow> FailedTemplateValidator \<Rightarrow> ValidateContext \<Rightarrow> int \<Rightarrow> K8sManifest list \<Rightarrow>
   result list" where
  "checksFrom compile a ctx idx [] = []"
| "checksFrom compile a ctx idx (m # ms) =
     checkManifest compile a ctx idx m # checksFrom compile a ctx (idx + 1) ms"

text \<open>A check returned (it did not panic); it passed; the diagnostics it gave.\<close>

fun returned :: "result \<Rightarrow> bool" where
  "returned (Inl pa) = False"
| "returned (Inr r) = True"

fun passed :: "result \<Rightarrow> bool" where
  "passed (Inl pa) = False"
| "passed (Inr (ok, ds)) = ok"

fun diagnostics :: "result \<Rightarrow> info list" where
  "diagnostics (Inl pa) = []"
| "diagnostics (Inr (ok, ds)) = ds"

section \<open>Properties\<close>

subsection \<open>Both parameters set\<close>

text \<open>
  C2. A validator with both \<open>errorMessage\<close> and \<open>errorPattern\<close> non-empty fails with the
  configuration-error diagnostic. The result is the same value for every context (its
  manifests, render error, negation and fail-fast flag) and every regular-expression
  library, so none of them is consulted.
\<close>

theorem both_parameters_set_fails:
  assumes "ErrorMessage a \<noteq> []" and "ErrorPattern a \<noteq> []"
  shows "Validate compile a ctx =
           Inr (False, [SplitInfof errorFormat (-1) (-1)
             [''single attribute 'errorMessage' or 'errorPattern' supported at the same time'']])"
  using assms by (simp add: Validate_def)

theorem both_parameters_set_fails_witness:
  "Validate go_Compile \<lparr>ErrorMessage = ''boom'', ErrorPattern = ''bo+m''\<rparr>
     \<lparr>Manifests = [[RAW \<mapsto> Str ''boom'']], Negative = True, FailFast = True, Strict = False,
      RenderError = Some ''boom''\<rparr> =
   Inr (False, [SplitInfof errorFormat (-1) (-1)
     [''single attribute 'errorMessage' or 'errorPattern' supported at the same time'']])"
  using both_parameters_set_fails
    [where a = "\<lparr>ErrorMessage = ''boom'', ErrorPattern = ''bo+m''\<rparr>" and compile = go_Compile]
  by simp

subsection \<open>A render error and no parameter\<close>

text \<open>
  C5. On a context that carries a render error, a validator with neither parameter set
  succeeds with no diagnostics, whatever the negation flag, the fail-fast flag and the
  manifests are.
\<close>

theorem render_error_no_parameter_succeeds:
  assumes "RenderError ctx = Some err" and "ErrorMessage a = []" and "ErrorPattern a = []"
  shows "Validate compile a ctx = Inr (True, [])"
  using assms by (simp add: Validate_def)

theorem render_error_no_parameter_succeeds_witness:
  "Validate go_Compile \<lparr>ErrorMessage = [], ErrorPattern = []\<rparr>
     \<lparr>Manifests = [], Negative = True, FailFast = False, Strict = False,
      RenderError = Some ''template: bad indentation''\<rparr> = Inr (True, [])"
  using render_error_no_parameter_succeeds
    [where a = "\<lparr>ErrorMessage = [], ErrorPattern = []\<rparr>" and compile = go_Compile
       and err = "''template: bad indentation''"]
  by simp

subsection \<open>A pattern that does not compile\<close>

text \<open>
  C6. When \<^verbatim>\<open>regexp.Compile\<close> rejects the pattern, \<^verbatim>\<open>validateErrorPattern\<close> returns failure with
  one diagnostic built from the message of the compile error. It returns before the actual
  value is looked at, so there is no panic even for an actual value that is not a string,
  and the indices and the context play no part.
\<close>

theorem invalid_pattern_is_validation_failure:
  assumes "compile (ErrorPattern a) = Inl err"
  shows "validateErrorPattern compile a actual manifestIndex actualIndex ctx =
           Inr (False, [SplitInfof errorFormat (-1) (-1) [err]])"
  using assms by (simp add: validateErrorPattern_def)

lemma go_Compile_open_paren:
  "go_Compile ''('' = Inl ''error parsing regexp: missing closing ): `(`''"
  by (simp add: go_Compile_def parse_pattern_def)

theorem invalid_pattern_is_validation_failure_witness:
  "go_Compile (ErrorPattern \<lparr>ErrorMessage = [], ErrorPattern = ''(''\<rparr>) =
     Inl ''error parsing regexp: missing closing ): `(`'' \<and>
   validateErrorPattern go_Compile \<lparr>ErrorMessage = [], ErrorPattern = ''(''\<rparr> (Other ''%!s(int=7)'') 2 (-1)
     \<lparr>Manifests = [], Negative = True, FailFast = False, Strict = False, RenderError = None\<rparr> =
   Inr (False, [SplitInfof errorFormat (-1) (-1) [''error parsing regexp: missing closing ): `(`'']])"
  using invalid_pattern_is_validation_failure
    [where compile = go_Compile and a = "\<lparr>ErrorMessage = [], ErrorPattern = ''(''\<rparr>"
       and err = "''error parsing regexp: missing closing ): `(`''"]
  by (simp add: go_Compile_open_paren)

subsection \<open>The zero-value validator on rendered manifests\<close>

lemma skipped_loop:
  "skipsManifests a ctx \<Longrightarrow>
   manifestsLoop compile a ctx idx ms validateSuccess validateErrors =
     Inr (validateSuccess, validateErrors)"
  by (induction ms arbitrary: idx) (simp_all add: skipsManifests_def)

text \<open>
  C8. The validator with both parameters empty, in a context that is not negated: the loop
  passes over every manifest with \<^verbatim>\<open>continue\<close> and leaves \<^verbatim>\<open>validateSuccess\<close> and
  \<^verbatim>\<open>validateErrors\<close> as they were, whatever the manifests hold; with no render error and a
  non-empty collection \<^verbatim>\<open>Validate\<close> returns success with no diagnostics.
\<close>

theorem zero_validator_skips_every_manifest:
  assumes "ErrorMessage a = []" and "ErrorPattern a = []" and "\<not> Negative ctx"
  shows "manifestsLoop compile a ctx idx ms validateSuccess validateErrors =
           Inr (validateSuccess, validateErrors) \<and>
         (RenderError ctx = None \<and> Manifests ctx \<noteq> [] \<longrightarrow>
            Validate compile a ctx = Inr (True, []))"
proof -
  have skip: "skipsManifests a ctx"
    using assms by (simp add: skipsManifests_def)
  have "validateManifests compile a (Manifests ctx) ctx = Inr (True, [])"
    if "Manifests ctx \<noteq> []"
    using that by (simp add: validateManifests_def skipped_loop [OF skip])
  then show ?thesis
    using assms by (simp add: skipped_loop [OF skip] Validate_def getManifests_def)
qed

theorem zero_validator_skips_every_manifest_witness:
  "manifestsLoop go_Compile \<lparr>ErrorMessage = [], ErrorPattern = []\<rparr>
     \<lparr>Manifests = [[RAW \<mapsto> Str ''kind: Pod''], [RAW \<mapsto> Other ''%!s(int=7)'']], Negative = False,
      FailFast = True, Strict = False, RenderError = None\<rparr>
     0 [[RAW \<mapsto> Str ''kind: Pod''], [RAW \<mapsto> Other ''%!s(int=7)'']] True [] = Inr (True, []) \<and>
   Validate go_Compile \<lparr>ErrorMessage = [], ErrorPattern = []\<rparr>
     \<lparr>Manifests = [[RAW \<mapsto> Str ''kind: Pod''], [RAW \<mapsto> Other ''%!s(int=7)'']], Negative = False,
      FailFast = True, Strict = False, RenderError = None\<rparr> = Inr (True, [])"
  using zero_validator_skips_every_manifest
    [where a = "\<lparr>ErrorMessage = [], ErrorPattern = []\<rparr>" and compile = go_Compile
       and ctx = "\<lparr>Manifests = [[RAW \<mapsto> Str ''kind: Pod''], [RAW \<mapsto> Other ''%!s(int=7)'']],
         Negative = False, FailFast = True, Strict = False, RenderError = None\<rparr>"
       and idx = "0" and ms = "[[RAW \<mapsto> Str ''kind: Pod''], [RAW \<mapsto> Other ''%!s(int=7)'']]"
       and validateSuccess = True and validateErrors = "[]"]
  by simp

subsection \<open>With a render error the manifests play no part\<close>

text \<open>
  C10. When the context carries a render error, the result of \<^verbatim>\<open>Validate\<close> is determined by
  the validator, the message of the render error and the negation flag: two contexts that
  agree on these give the same result, however their manifests (and their fail-fast and
  strict flags) differ.
\<close>

theorem render_error_result_ignores_manifests:
  assumes "RenderError ctxA = Some err" and "RenderError ctxB = Some err"
    and "Negative ctxA = Negative ctxB"
  shows "Validate compile a ctxA = Validate compile a ctxB"
proof -
  have "validateErrorPattern compile a (Str err) (-1) (-1) ctxA =
        validateErrorPattern compile a (Str err) (-1) (-1) ctxB"
    using assms(3) by (simp add: validateErrorPattern_def split: sum.splits)
  moreover have "validateErrorMessage a (Str err) (-1) (-1) ctxA =
        validateErrorMessage a (Str err) (-1) (-1) ctxB"
    using assms(3) by (simp add: validateErrorMessage_def)
  ultimately show ?thesis
    using assms(1,2) by (simp add: Validate_def)
qed

theorem render_error_result_ignores_manifests_witness:
  "Validate go_Compile \<lparr>ErrorMessage = ''bad indentation'', ErrorPattern = []\<rparr>
     \<lparr>Manifests = [], Negative = False, FailFast = False, Strict = False,
      RenderError = Some ''template: bad indentation''\<rparr> =
   Validate go_Compile \<lparr>ErrorMessage = ''bad indentation'', ErrorPattern = []\<rparr>
     \<lparr>Manifests = [[RAW \<mapsto> Other ''%!s(int=7)''], [RAW \<mapsto> Str ''bad indentation'']],
      Negative = False, FailFast = True, Strict = True,
      RenderError = Some ''template: bad indentation''\<rparr>"
  using render_error_result_ignores_manifests
    [where compile = go_Compile and err = "''template: bad indentation''"
       and ctxA = "\<lparr>Manifests = [], Negative = False, FailFast = False, Strict = False,
         RenderError = Some ''template: bad indentation''\<rparr>"
       and ctxB = "\<lparr>Manifests = [[RAW \<mapsto> Other ''%!s(int=7)''], [RAW \<mapsto> Str ''bad indentation'']],
         Negative = False, FailFast = True, Strict = True,
         RenderError = Some ''template: bad indentation''\<rparr>"]
  by simp

subsection \<open>An actual value that is nil\<close>

lemma go_Compile_a_plus:
  "go_Compile ''a+'' = Inr (MatchString (Plus (Literal CHR ''a'')))"
  by (simp add: go_Compile_def parse_pattern_def close_group_def repeat_op_def)

text \<open>
  C9, as stated, fails for \<^verbatim>\<open>validateErrorPattern\<close> with a pattern that does not compile: the
  result is failure also when the context is negated.
\<close>

theorem nil_actual_negated_invalid_pattern_fails:
  "validateErrorPattern go_Compile \<lparr>ErrorMessage = [], ErrorPattern = ''(''\<rparr> Nil 0 (-1)
     \<lparr>Manifests = [], Negative = True, FailFast = False, Strict = False, RenderError = None\<rparr> =
   Inr (False, [SplitInfof errorFormat (-1) (-1) [''error parsing regexp: missing closing ): `(`'']])"
  by (simp add: validateErrorPattern_def go_Compile_open_paren)

text \<open>
  C9, amended. For an actual value that is \<^verbatim>\<open>nil\<close> the type assertion is not evaluated and
  there is no panic. \<^verbatim>\<open>validateErrorMessage\<close>, and \<^verbatim>\<open>validateErrorPattern\<close> with a pattern
  that compiles, fail with the diagnostic of \<^verbatim>\<open>failInfo\<close> when the context is not negated
  and succeed with no diagnostics when it is negated. With a pattern that does not compile
  \<^verbatim>\<open>validateErrorPattern\<close> fails with the compile error's diagnostic in both cases.
\<close>

theorem nil_actual_never_panics:
  "validateErrorMessage a Nil manifestIndex actualIndex ctx =
     (if Negative ctx then Inr (True, [])
      else Inr (False, [SplitInfof (setFailFormat False False True False
             (if ErrorPattern a \<noteq> [] then '' to match'' else '' to equal''))
             manifestIndex actualIndex
             [cmp_Or (ErrorMessage a) (ErrorPattern a), ''%!s(<nil>)'']])) \<and>
   (\<forall>p. compile (ErrorPattern a) = Inr p \<longrightarrow>
      validateErrorPattern compile a Nil manifestIndex actualIndex ctx =
        (if Negative ctx then Inr (True, [])
         else Inr (False, [SplitInfof (setFailFormat False False True False
                (if ErrorPattern a \<noteq> [] then '' to match'' else '' to equal''))
                manifestIndex actualIndex
                [cmp_Or (ErrorMessage a) (ErrorPattern a), ''%!s(<nil>)'']]))) \<and>
   (\<forall>err. compile (ErrorPattern a) = Inl err \<longrightarrow>
      validateErrorPattern compile a Nil manifestIndex actualIndex ctx =
        Inr (False, [SplitInfof errorFormat (-1) (-1) [err]]))"
  by (simp add: validateErrorMessage_def validateErrorPattern_def failInfo_def)

theorem nil_actual_never_panics_witness:
  "go_Compile ''a+'' = Inr (MatchString (Plus (Literal CHR ''a''))) \<and>
   validateErrorPattern go_Compile \<lparr>ErrorMessage = [], ErrorPattern = ''a+''\<rparr> Nil 3 (-1)
     \<lparr>Manifests = [], Negative = False, FailFast = False, Strict = False, RenderError = None\<rparr> =
   Inr (False, [SplitInfof (setFailFormat False False True False '' to match'') 3 (-1)
     [''a+'', ''%!s(<nil>)'']]) \<and>
   validateErrorPattern go_Compile \<lparr>ErrorMessage = [], ErrorPattern = ''a+''\<rparr> Nil 3 (-1)
     \<lparr>Manifests = [], Negative = True, FailFast = False, Strict = False, RenderError = None\<rparr> =
   Inr (True, [])"
  using
    nil_actual_never_panics
      [where compile = go_Compile and a = "\<lparr>ErrorMessage = [], ErrorPattern = ''a+''\<rparr>"
         and manifestIndex = "3" and actualIndex = "-1"
         and ctx = "\<lparr>Manifests = [], Negative = False, FailFast = False, Strict = False,
           RenderError = None\<rparr>"]
    nil_actual_never_panics
      [where compile = go_Compile and a = "\<lparr>ErrorMessage = [], ErrorPattern = ''a+''\<rparr>"
         and manifestIndex = "3" and actualIndex = "-1"
         and ctx = "\<lparr>Manifests = [], Negative = True, FailFast = False, Strict = False,
           RenderError = None\<rparr>"]
  by (simp add: go_Compile_a_plus cmp_Or_def)

subsection \<open>No render error and no manifest\<close>

text \<open>
  C4, as stated, fails for a validator with both parameters set: \<^verbatim>\<open>Validate\<close> returns the
  configuration error before it comes to the manifests, so in a negated context with no
  render error and no manifest the result is failure.
\<close>

theorem empty_negated_both_parameters_fails:
  "Validate go_Compile \<lparr>ErrorMessage = ''boom'', ErrorPattern = ''bo+m''\<rparr>
     \<lparr>Manifests = [], Negative = True, FailFast = False, Strict = False, RenderError = None\<rparr> =
   Inr (False, [SplitInfof errorFormat (-1) (-1)
     [''single attribute 'errorMessage' or 'errorPattern' supported at the same time'']])"
  by (simp add: Validate_def)

text \<open>
  C4, amended. \<^verbatim>\<open>validateManifests\<close> on an empty collection fails with the "No failed
  document" diagnostic of \<^verbatim>\<open>failInfo\<close> when the context is not negated and succeeds with no
  diagnostics when it is negated, for every validator. \<^verbatim>\<open>Validate\<close> on a context with no
  render error and no manifest returns that result for every validator that does not have
  both parameters set.
\<close>

theorem empty_collection_without_render_error:
  "validateManifests compile a [] ctx =
     (if Negative ctx then Inr (True, [])
      else Inr (False, [SplitInfof (setFailFormat False False True False
             (if ErrorPattern a \<noteq> [] then '' to match'' else '' to equal''))
             (-1) (-1) [cmp_Or (ErrorMessage a) (ErrorPattern a), ''No failed document'']])) \<and>
   (RenderError ctx = None \<and> Manifests ctx = [] \<and>
    (ErrorMessage a = [] \<or> ErrorPattern a = []) \<longrightarrow>
      Validate compile a ctx = validateManifests compile a [] ctx)"
  by (auto simp add: validateManifests_def failInfo_def Validate_def getManifests_def)

theorem empty_collection_without_render_error_witness:
  "Validate go_Compile \<lparr>ErrorMessage = [], ErrorPattern = ''a+''\<rparr>
     \<lparr>Manifests = [], Negative = False, FailFast = False, Strict = False, RenderError = None\<rparr> =
   Inr (False, [SplitInfof (setFailFormat False False True False '' to match'') (-1) (-1)
     [''a+'', ''No failed document'']]) \<and>
   Validate go_Compile \<lparr>ErrorMessage = [], ErrorPattern = ''a+''\<rparr>
     \<lparr>Manifests = [], Negative = True, FailFast = False, Strict = False, RenderError = None\<rparr> =
   Inr (True, [])"
  using
    empty_collection_without_render_error
      [where compile = go_Compile and a = "\<lparr>ErrorMessage = [], ErrorPattern = ''a+''\<rparr>"
         and ctx = "\<lparr>Manifests = [], Negative = False, FailFast = False, Strict = False,
           RenderError = None\<rparr>"]
    empty_collection_without_render_error
      [where compile = go_Compile and a = "\<lparr>ErrorMessage = [], ErrorPattern = ''a+''\<rparr>"
         and ctx = "\<lparr>Manifests = [], Negative = True, FailFast = False, Strict = False,
           RenderError = None\<rparr>"]
  by (simp add: cmp_Or_def)

subsection \<open>The loop over the manifests\<close>

lemma loop_step:
  assumes "\<not> skipsManifests a ctx" and "checkManifest compile a ctx idx m = Inr (ok, ds)"
  shows "manifestsLoop compile a ctx idx (m # rest) vs ve =
           (if \<not> (vs \<and> ok) \<and> FailFast ctx then Inr (vs \<and> ok, ve @ ds)
            else manifestsLoop compile a ctx (idx + 1) rest (vs \<and> ok) (ve @ ds))"
  using assms by (auto simp add: skipsManifests_def determineSuccess_def)

lemma loop_all_manifests:
  assumes "\<not> skipsManifests a ctx" and "\<not> FailFast ctx"
    and "list_all returned (checksFrom compile a ctx idx ms)"
  shows "manifestsLoop compile a ctx idx ms vs ve =
           Inr (vs \<and> list_all passed (checksFrom compile a ctx idx ms),
                ve @ concat (map diagnostics (checksFrom compile a ctx idx ms)))"
  using assms
proof (induction ms arbitrary: idx vs ve)
  case Nil
  then show ?case by simp
next
  case (Cons m ms)
  from Cons.prems(3) obtain ok ds where c: "checkManifest compile a ctx idx m = Inr (ok, ds)"
    by (cases "checkManifest compile a ctx idx m") auto
  have rest: "list_all returned (checksFrom compile a ctx (idx + 1) ms)"
    using Cons.prems(3) by simp
  show ?case
    using Cons.prems(2) c Cons.IH [OF Cons.prems(1,2) rest, of "vs \<and> ok" "ve @ ds"]
    by (simp add: loop_step [OF Cons.prems(1) c] del: manifestsLoop.simps)
qed

lemma loop_success:
  assumes "\<not> skipsManifests a ctx"
    and "list_all returned (checksFrom compile a ctx idx ms)"
  shows "\<exists>es. manifestsLoop compile a ctx idx ms vs ve =
           Inr (vs \<and> list_all passed (checksFrom compile a ctx idx ms), es)"
  using assms
proof (induction ms arbitrary: idx vs ve)
  case Nil
  then show ?case by simp
next
  case (Cons m ms)
  from Cons.prems(2) obtain ok ds where c: "checkManifest compile a ctx idx m = Inr (ok, ds)"
    by (cases "checkManifest compile a ctx idx m") auto
  have rest: "list_all returned (checksFrom compile a ctx (idx + 1) ms)"
    using Cons.prems(2) by simp
  show ?case
  proof (cases "\<not> (vs \<and> ok) \<and> FailFast ctx")
    case True
    then show ?thesis
      using c by (auto simp add: loop_step [OF Cons.prems(1) c] simp del: manifestsLoop.simps)
  next
    case False
    then show ?thesis
      using c Cons.IH [OF Cons.prems(1) rest, of "vs \<and> ok" "ve @ ds"]
      by (auto simp add: loop_step [OF Cons.prems(1) c] simp del: manifestsLoop.simps)
  qed
qed

lemma passing_check_is_silent:
  "checkManifest compile a ctx idx m = Inr (True, ds) \<Longrightarrow> ds = []"
  by (auto simp add: checkManifest_def validateErrorPattern_def validateErrorMessage_def Let_def
      split: if_splits sum.splits)

lemma loop_fail_fast:
  assumes "\<not> skipsManifests a ctx" and "FailFast ctx"
    and "list_all (\<lambda>r. r = Inr (True, [])) (checksFrom compile a ctx idx pre)"
    and "checkManifest compile a ctx (idx + int (length pre)) m = Inr (False, ds)"
  shows "manifestsLoop compile a ctx idx (pre @ m # post) True ve = Inr (False, ve @ ds)"
  using assms
proof (induction pre arbitrary: idx)
  case Nil
  then show ?case
    using loop_step [of a ctx compile idx m False ds post True ve] by simp
next
  case (Cons x pre)
  have c: "checkManifest compile a ctx idx x = Inr (True, [])"
    using Cons.prems(3) by simp
  have rest: "list_all (\<lambda>r. r = Inr (True, [])) (checksFrom compile a ctx (idx + 1) pre)"
    using Cons.prems(3) by simp
  have m: "checkManifest compile a ctx (idx + 1 + int (length pre)) m = Inr (False, ds)"
  proof -
    have "idx + 1 + int (length pre) = idx + int (length (x # pre))" by simp
    then show ?thesis using Cons.prems(4) by (simp only:)
  qed
  show ?case
    using Cons.IH [OF Cons.prems(1,2) rest m]
    by (simp add: loop_step [OF Cons.prems(1) c] del: manifestsLoop.simps)
qed

lemma failing_check_tag:
  assumes "checkManifest compile a ctx idx m = Inr (False, ds)"
  shows "(case compile (ErrorPattern a) of
            Inl err \<Rightarrow> ErrorPattern a \<noteq> [] \<longrightarrow> ds = [SplitInfof errorFormat (-1) (-1) [err]]
          | Inr p \<Rightarrow> True) \<and>
         ((\<exists>p. compile (ErrorPattern a) = Inr p) \<or> ErrorPattern a = [] \<longrightarrow>
            ds = failInfo a (index_manifest m RAW) idx (-1) (Negative ctx))"
  using assms
  by (auto simp add: checkManifest_def validateErrorPattern_def validateErrorMessage_def Let_def
      split: if_splits sum.splits)

lemma passed_checks_are_silent:
  "list_all passed (checksFrom compile a ctx idx ms) \<Longrightarrow>
   list_all (\<lambda>r. r = Inr (True, [])) (checksFrom compile a ctx idx ms)"
proof (induction ms arbitrary: idx)
  case Nil
  then show ?case by simp
next
  case (Cons m ms)
  from Cons.prems obtain ds where "checkManifest compile a ctx idx m = Inr (True, ds)"
    by (cases "checkManifest compile a ctx idx m") auto
  then have "checkManifest compile a ctx idx m = Inr (True, [])"
    using passing_check_is_silent by blast
  then show ?case using Cons by simp
qed

lemma failInfo_tag:
  "failInfo a actual idx actualIndex neg \<noteq> [] \<and>
   list_all (\<lambda>d. manifestIndex_of d = idx) (failInfo a actual idx actualIndex neg)"
  by (simp add: failInfo_def Let_def)

text \<open>
  C7, as stated, fails for a pattern that does not compile: each manifest then fails with
  the diagnostic of the compile error, which carries the index \<open>-1\<close> and not the index of
  the manifest.
\<close>

theorem invalid_pattern_diagnostic_is_not_tagged:
  "validateManifests go_Compile \<lparr>ErrorMessage = [], ErrorPattern = ''(''\<rparr>
     [[RAW \<mapsto> Str ''kind: Pod'']]
     \<lparr>Manifests = [[RAW \<mapsto> Str ''kind: Pod'']], Negative = False, FailFast = False,
      Strict = False, RenderError = None\<rparr> =
   Inr (False, [SplitInfof errorFormat (-1) (-1) [''error parsing regexp: missing closing ): `(`'']]) \<and>
   map manifestIndex_of
     [SplitInfof errorFormat (-1) (-1) [''error parsing regexp: missing closing ): `(`'']] = [-1]"
  by (simp add: validateManifests_def checkManifest_def validateErrorPattern_def
      go_Compile_open_paren determineSuccess_def)

text \<open>
  C7, amended. For a validator that does not skip the manifests:
  \<^item> a failed check of the manifest at index \<open>idx\<close> gives diagnostics, all tagged \<open>idx\<close>, when
    the pattern compiles or there is none; when the pattern does not compile it gives the
    diagnostic of the compile error, tagged \<open>-1\<close>;
  \<^item> without fail-fast \<^verbatim>\<open>validateManifests\<close> checks every manifest in index order: it
    succeeds iff all the checks pass, so a failure is never undone by a later success, and
    it returns the diagnostics of all the checks in order;
  \<^item> with fail-fast \<^verbatim>\<open>validateManifests\<close> stops at the first manifest whose check fails:
    the result is failure with the diagnostics of that manifest, and the manifests after it
    are not looked at (whatever they hold).
\<close>

theorem manifest_failures_accumulate:
  assumes "\<not> skipsManifests a ctx"
  shows "(checkManifest compile a ctx idx m = Inr (False, ds) \<longrightarrow>
            ((\<exists>p. compile (ErrorPattern a) = Inr p) \<or> ErrorPattern a = [] \<longrightarrow>
               ds \<noteq> [] \<and> list_all (\<lambda>d. manifestIndex_of d = idx) ds) \<and>
            (\<forall>err. ErrorPattern a \<noteq> [] \<and> compile (ErrorPattern a) = Inl err \<longrightarrow>
               ds = [SplitInfof errorFormat (-1) (-1) [err]])) \<and>
         (\<not> FailFast ctx \<and> ms \<noteq> [] \<and> list_all returned (checksFrom compile a ctx 0 ms) \<longrightarrow>
            validateManifests compile a ms ctx =
              Inr (list_all passed (checksFrom compile a ctx 0 ms),
                   concat (map diagnostics (checksFrom compile a ctx 0 ms)))) \<and>
         (FailFast ctx \<and> list_all passed (checksFrom compile a ctx 0 pre) \<and>
          checkManifest compile a ctx (int (length pre)) m = Inr (False, ds) \<longrightarrow>
            validateManifests compile a (pre @ m # post) ctx = Inr (False, ds))"
proof (intro conjI impI)
  assume c: "checkManifest compile a ctx idx m = Inr (False, ds)"
  assume "(\<exists>p. compile (ErrorPattern a) = Inr p) \<or> ErrorPattern a = []"
  then have "ds = failInfo a (index_manifest m RAW) idx (-1) (Negative ctx)"
    using failing_check_tag [OF c] by blast
  then show "ds \<noteq> []" and "list_all (\<lambda>d. manifestIndex_of d = idx) ds"
    using failInfo_tag by simp_all
next
  assume c: "checkManifest compile a ctx idx m = Inr (False, ds)"
  show "\<forall>err. ErrorPattern a \<noteq> [] \<and> compile (ErrorPattern a) = Inl err \<longrightarrow>
          ds = [SplitInfof errorFormat (-1) (-1) [err]]"
    using failing_check_tag [OF c] by auto
next
  assume h: "\<not> FailFast ctx \<and> ms \<noteq> [] \<and> list_all returned (checksFrom compile a ctx 0 ms)"
  then have "manifestsLoop compile a ctx 0 ms True [] =
      Inr (True \<and> list_all passed (checksFrom compile a ctx 0 ms),
           [] @ concat (map diagnostics (checksFrom compile a ctx 0 ms)))"
    using loop_all_manifests [OF assms] by blast
  then show "validateManifests compile a ms ctx =
      Inr (list_all passed (checksFrom compile a ctx 0 ms),
           concat (map diagnostics (checksFrom compile a ctx 0 ms)))"
    using h by (simp add: validateManifests_def)
next
  assume h: "FailFast ctx \<and> list_all passed (checksFrom compile a ctx 0 pre) \<and>
    checkManifest compile a ctx (int (length pre)) m = Inr (False, ds)"
  then have "list_all (\<lambda>r. r = Inr (True, [])) (checksFrom compile a ctx 0 pre)"
    using passed_checks_are_silent by blast
  moreover have "checkManifest compile a ctx (0 + int (length pre)) m = Inr (False, ds)"
    using h by simp
  ultimately have "manifestsLoop compile a ctx 0 (pre @ m # post) True [] = Inr (False, [] @ ds)"
    using loop_fail_fast [OF assms] h by blast
  then show "validateManifests compile a (pre @ m # post) ctx = Inr (False, ds)"
    by (simp add: validateManifests_def)
qed

lemma check_aa:
  "checkManifest go_Compile \<lparr>ErrorMessage = [], ErrorPattern = ''a+''\<rparr> ctx idx [RAW \<mapsto> Str ''aa''] =
     (if Negative ctx
      then Inr (False, [SplitInfof (setFailFormat True False False False '' to match'') idx (-1) [''a+'']])
      else Inr (True, []))"
  by (simp add: checkManifest_def validateErrorPattern_def go_Compile_a_plus index_manifest_def
      failInfo_def cmp_Or_def)

lemma check_b:
  "checkManifest go_Compile \<lparr>ErrorMessage = [], ErrorPattern = ''a+''\<rparr> ctx idx [RAW \<mapsto> Str ''b''] =
     (if Negative ctx then Inr (True, [])
      else Inr (False, [SplitInfof (setFailFormat False False True False '' to match'') idx (-1)
             [''a+'', ''b'']]))"
  by (simp add: checkManifest_def validateErrorPattern_def go_Compile_a_plus index_manifest_def
      failInfo_def cmp_Or_def)

theorem manifest_failures_accumulate_witness:
  "validateManifests go_Compile \<lparr>ErrorMessage = [], ErrorPattern = ''a+''\<rparr>
     [[RAW \<mapsto> Str ''b''], [RAW \<mapsto> Str ''aa''], [RAW \<mapsto> Str ''b'']]
     \<lparr>Manifests = [], Negative = False, FailFast = False, Strict = False, RenderError = None\<rparr> =
   Inr (False,
     [SplitInfof (setFailFormat False False True False '' to match'') 0 (-1) [''a+'', ''b''],
      SplitInfof (setFailFormat False False True False '' to match'') 2 (-1) [''a+'', ''b'']]) \<and>
   validateManifests go_Compile \<lparr>ErrorMessage = [], ErrorPattern = ''a+''\<rparr>
     ([[RAW \<mapsto> Str ''aa'']] @ [RAW \<mapsto> Str ''b''] # [[RAW \<mapsto> Other ''%!s(int=7)'']])
     \<lparr>Manifests = [], Negative = False, FailFast = True, Strict = False, RenderError = None\<rparr> =
   Inr (False,
     [SplitInfof (setFailFormat False False True False '' to match'') 1 (-1) [''a+'', ''b'']])"
  using
    manifest_failures_accumulate
      [where compile = go_Compile and a = "\<lparr>ErrorMessage = [], ErrorPattern = ''a+''\<rparr>"
         and ctx = "\<lparr>Manifests = [], Negative = False, FailFast = False, Strict = False,
           RenderError = None\<rparr>"
         and ms = "[[RAW \<mapsto> Str ''b''], [RAW \<mapsto> Str ''aa''], [RAW \<mapsto> Str ''b'']]"]
    manifest_failures_accumulate
      [where compile = go_Compile and a = "\<lparr>ErrorMessage = [], ErrorPattern = ''a+''\<rparr>"
         and ctx = "\<lparr>Manifests = [], Negative = False, FailFast = True, Strict = False,
           RenderError = None\<rparr>"
         and pre = "[[RAW \<mapsto> Str ''aa'']]" and m = "[RAW \<mapsto> Str ''b'']"
         and post = "[[RAW \<mapsto> Other ''%!s(int=7)'']]"
         and ds = "[SplitInfof (setFailFormat False False True False '' to match'') 1 (-1)
           [''a+'', ''b'']]"]
  by (simp add: skipsManifests_def check_aa check_b validateManifests_def
      del: manifestsLoop.simps)

subsection \<open>What the fragment matches\<close>

text \<open>
  In the model of the fragment, the matcher by derivatives decides membership in the
  language of the expression, and \<open>MatchString\<close> holds exactly when some substring of the
  string is in that language.
\<close>

lemma conc_nil_iff: "[] \<in> conc A B \<longleftrightarrow> [] \<in> A \<and> [] \<in> B"
  by (auto simp: conc_def)

lemma nullable_iff: "nullable r \<longleftrightarrow> [] \<in> lang r"
  by (induction r) (auto simp: conc_nil_iff intro: iter.intros)

lemma conc_cons_iff:
  "c # w \<in> conc A B \<longleftrightarrow>
     (\<exists>u v. w = u @ v \<and> c # u \<in> A \<and> v \<in> B) \<or> ([] \<in> A \<and> c # w \<in> B)"
  unfolding conc_def
  by (auto simp: append_eq_Cons_conv Cons_eq_append_conv)

lemma iter_cons_split:
  "w \<in> iter A \<Longrightarrow> w = c # t \<Longrightarrow> \<exists>u v. t = u @ v \<and> c # u \<in> A \<and> v \<in> iter A"
proof (induction arbitrary: t rule: iter.induct)
  case iter_nil
  then show ?case by simp
next
  case (iter_app u v)
  show ?case
  proof (cases u)
    case Nil
    with iter_app show ?thesis by simp
  next
    case (Cons d u')
    with iter_app.prems have "d = c" and "t = u' @ v" by simp_all
    with Cons iter_app.hyps show ?thesis by blast
  qed
qed

lemma iter_cons_iff:
  "c # w \<in> iter A \<longleftrightarrow> (\<exists>u v. w = u @ v \<and> c # u \<in> A \<and> v \<in> iter A)"
proof
  assume "c # w \<in> iter A"
  then show "\<exists>u v. w = u @ v \<and> c # u \<in> A \<and> v \<in> iter A"
    using iter_cons_split by blast
next
  assume "\<exists>u v. w = u @ v \<and> c # u \<in> A \<and> v \<in> iter A"
  then obtain u v where "w = u @ v" "c # u \<in> A" "v \<in> iter A" by blast
  then show "c # w \<in> iter A"
    using iter.iter_app [of "c # u" A v] by simp
qed

lemma deriv_iff: "w \<in> lang (deriv c r) \<longleftrightarrow> c # w \<in> lang r"
proof (induction r arbitrary: w)
  case (Concat r s)
  then show ?case
    by (auto simp: conc_cons_iff nullable_iff) (auto simp: conc_def)
next
  case (Star r)
  then show ?case
    by (auto simp: iter_cons_iff) (auto simp: conc_def)
next
  case (Plus r)
  then show ?case
    by (auto simp: conc_cons_iff iter_cons_iff) (auto simp: conc_def)
qed auto

lemma fullMatch_iff: "fullMatch r s \<longleftrightarrow> s \<in> lang r"
  by (induction s arbitrary: r) (simp_all add: nullable_iff deriv_iff)

lemma prefixMatch_iff: "prefixMatch r s \<longleftrightarrow> (\<exists>v w. s = v @ w \<and> v \<in> lang r)"
proof (induction s arbitrary: r)
  case Nil
  then show ?case by (simp add: nullable_iff)
next
  case (Cons c cs)
  note IH = Cons.IH
  show ?case
  proof
    assume "prefixMatch r (c # cs)"
    then consider "nullable r" | "prefixMatch (deriv c r) cs" by auto
    then show "\<exists>v w. c # cs = v @ w \<and> v \<in> lang r"
    proof cases
      case 1
      then have "c # cs = [] @ (c # cs) \<and> [] \<in> lang r" by (simp add: nullable_iff)
      then show ?thesis by blast
    next
      case 2
      then obtain v w where "cs = v @ w" "v \<in> lang (deriv c r)" using IH by blast
      then have "c # cs = (c # v) @ w \<and> c # v \<in> lang r" by (simp add: deriv_iff)
      then show ?thesis by blast
    qed
  next
    assume "\<exists>v w. c # cs = v @ w \<and> v \<in> lang r"
    then obtain v w where vw: "c # cs = v @ w" "v \<in> lang r" by blast
    show "prefixMatch r (c # cs)"
    proof (cases "v = []")
      case True
      with vw have "nullable r" by (simp add: nullable_iff)
      then show ?thesis by simp
    next
      case False
      then obtain v' where v: "v = c # v'" using vw(1) by (cases v) auto
      with vw have "cs = v' @ w" "v' \<in> lang (deriv c r)" by (simp_all add: deriv_iff)
      then have "prefixMatch (deriv c r) cs" using IH by blast
      then show ?thesis by simp
    qed
  qed
qed

lemma MatchString_iff: "MatchString r s \<longleftrightarrow> (\<exists>u v w. s = u @ v @ w \<and> v \<in> lang r)"
proof (induction s)
  case Nil
  then show ?case by (simp add: nullable_iff)
next
  case (Cons c cs)
  note IH = Cons.IH
  show ?case
  proof
    assume "MatchString r (c # cs)"
    then consider "prefixMatch r (c # cs)" | "MatchString r cs" by auto
    then show "\<exists>u v w. c # cs = u @ v @ w \<and> v \<in> lang r"
    proof cases
      case 1
      then obtain v w where "c # cs = v @ w" "v \<in> lang r"
        using prefixMatch_iff by blast
      then have "c # cs = [] @ v @ w \<and> v \<in> lang r" by simp
      then show ?thesis by blast
    next
      case 2
      then obtain u v w where "cs = u @ v @ w" "v \<in> lang r" using IH by blast
      then have "c # cs = (c # u) @ v @ w \<and> v \<in> lang r" by simp
      then show ?thesis by blast
    qed
  next
    assume "\<exists>u v w. c # cs = u @ v @ w \<and> v \<in> lang r"
    then obtain u v w where uvw: "c # cs = u @ v @ w" "v \<in> lang r" by blast
    show "MatchString r (c # cs)"
    proof (cases "u = []")
      case True
      with uvw have "c # cs = v @ w \<and> v \<in> lang r" by simp
      then have "prefixMatch r (c # cs)" using prefixMatch_iff by blast
      then show ?thesis by simp
    next
      case False
      then obtain u' where "u = c # u'" using uvw(1) by (cases u) auto
      with uvw have "cs = u' @ v @ w" by simp
      with uvw have "MatchString r cs" using IH by blast
      then show ?thesis by simp
    qed
  qed
qed

subsection \<open>A render error against a pattern\<close>

lemma parse_bad:
  "parse_pattern ''bad.*'' =
     Inr (Concat (Literal CHR ''b'') (Concat (Literal CHR ''a'')
           (Concat (Literal CHR ''d'') (Star AnyCharNotNL))))"
  by (simp add: parse_pattern_def close_group_def repeat_op_def)

text \<open>
  C3, as stated, fails: \<^verbatim>\<open>validateErrorPattern\<close> tests the message with
  \<^verbatim>\<open>p.MatchString\<close>, which looks for a match anywhere in the string. The pattern
  \<^verbatim>\<open>bad.*\<close> does not match the whole message "template: bad indentation", and the
  assertion passes (as the example of the spec itself says).
\<close>

theorem render_error_pattern_is_not_full_match:
  "parse_pattern ''bad.*'' =
     Inr (Concat (Literal CHR ''b'') (Concat (Literal CHR ''a'')
           (Concat (Literal CHR ''d'') (Star AnyCharNotNL)))) \<and>
   \<not> fullMatch (Concat (Literal CHR ''b'') (Concat (Literal CHR ''a'')
           (Concat (Literal CHR ''d'') (Star AnyCharNotNL)))) ''template: bad indentation'' \<and>
   Validate go_Compile \<lparr>ErrorMessage = [], ErrorPattern = ''bad.*''\<rparr>
     \<lparr>Manifests = [], Negative = False, FailFast = False, Strict = False,
      RenderError = Some ''template: bad indentation''\<rparr> = Inr (True, [])"
  by (simp add: parse_bad Validate_def validateErrorPattern_def go_Compile_def)

text \<open>
  C3, amended. When the context carries a render error and only \<open>errorPattern\<close> is set, to
  a pattern that compiles, the message of the error is handed whole to \<^verbatim>\<open>MatchString\<close> of the
  compiled pattern, with negation applied at the comparison: the validation fails with the
  diagnostic of \<^verbatim>\<open>failInfo\<close> exactly when the verdict of \<^verbatim>\<open>MatchString\<close> equals the negation
  flag, and passes with no diagnostics otherwise. This holds for every regular-expression
  library; \<^verbatim>\<open>validateErrorPattern\<close> does the same on any string it is given. What counts as a
  match is the library's \<^verbatim>\<open>MatchString\<close>, which need not be a match of the whole message.
\<close>

theorem render_error_pattern_uses_MatchString:
  assumes "compile (ErrorPattern a) = Inr p"
  shows "validateErrorPattern compile a (Str msg) manifestIndex actualIndex ctx =
           (if p msg = Negative ctx
            then Inr (False, failInfo a (Str msg) manifestIndex actualIndex (Negative ctx))
            else Inr (True, [])) \<and>
         (RenderError ctx = Some msg \<and> ErrorMessage a = [] \<and> ErrorPattern a \<noteq> [] \<longrightarrow>
            Validate compile a ctx =
              (if p msg = Negative ctx
               then Inr (False, failInfo a (Str msg) (-1) (-1) (Negative ctx))
               else Inr (True, [])))"
  using assms by (simp add: Validate_def validateErrorPattern_def)

lemma go_Compile_bad:
  "go_Compile ''bad.*'' =
     Inr (MatchString (Concat (Literal CHR ''b'') (Concat (Literal CHR ''a'')
           (Concat (Literal CHR ''d'') (Star AnyCharNotNL)))))"
  by (simp add: go_Compile_def parse_bad)

theorem render_error_pattern_uses_MatchString_witness:
  "Validate go_Compile \<lparr>ErrorMessage = [], ErrorPattern = ''bad.*''\<rparr>
     \<lparr>Manifests = [], Negative = False, FailFast = False, Strict = False,
      RenderError = Some ''template: bad indentation''\<rparr> = Inr (True, []) \<and>
   Validate go_Compile \<lparr>ErrorMessage = [], ErrorPattern = ''bad.*''\<rparr>
     \<lparr>Manifests = [], Negative = True, FailFast = False, Strict = False,
      RenderError = Some ''template: bad indentation''\<rparr> =
   Inr (False, [SplitInfof (setFailFormat True False False False '' to match'') (-1) (-1)
     [''bad.*'']])"
  using
    render_error_pattern_uses_MatchString
      [where compile = go_Compile and a = "\<lparr>ErrorMessage = [], ErrorPattern = ''bad.*''\<rparr>"
         and p = "MatchString (Concat (Literal CHR ''b'') (Concat (Literal CHR ''a'')
           (Concat (Literal CHR ''d'') (Star AnyCharNotNL))))"
         and msg = "''template: bad indentation''"
         and ctx = "\<lparr>Manifests = [], Negative = False, FailFast = False, Strict = False,
           RenderError = Some ''template: bad indentation''\<rparr>"]
    render_error_pattern_uses_MatchString
      [where compile = go_Compile and a = "\<lparr>ErrorMessage = [], ErrorPattern = ''bad.*''\<rparr>"
         and p = "MatchString (Concat (Literal CHR ''b'') (Concat (Literal CHR ''a'')
           (Concat (Literal CHR ''d'') (Star AnyCharNotNL))))"
         and msg = "''template: bad indentation''"
         and ctx = "\<lparr>Manifests = [], Negative = True, FailFast = False, Strict = False,
           RenderError = Some ''template: bad indentation''\<rparr>"]
  by (simp add: go_Compile_bad failInfo_def cmp_Or_def)

subsection \<open>Only the pattern set, on rendered manifests\<close>

lemma check_with_pattern:
  assumes "ErrorPattern a \<noteq> []" and "compile (ErrorPattern a) = Inr p" and "rawIsString m"
  shows "checkManifest compile a ctx idx m =
           Inr (manifestMatches p m \<noteq> Negative ctx,
                if manifestMatches p m = Negative ctx
                then failInfo a (index_manifest m RAW) idx (-1) (Negative ctx) else [])"
  using assms
  by (cases "index_manifest m RAW")
     (auto simp add: checkManifest_def validateErrorPattern_def manifestMatches_def rawIsString_def)

lemma checks_with_pattern:
  assumes "ErrorPattern a \<noteq> []" and "compile (ErrorPattern a) = Inr p"
    and "list_all rawIsString ms"
  shows "list_all returned (checksFrom compile a ctx idx ms) \<and>
         list_all passed (checksFrom compile a ctx idx ms) =
           list_all (\<lambda>m. manifestMatches p m \<noteq> Negative ctx) ms"
  using assms(3)
proof (induction ms arbitrary: idx)
  case Nil
  then show ?case by simp
next
  case (Cons m ms)
  then have "rawIsString m" and "list_all rawIsString ms" by simp_all
  then show ?case
    using Cons.IH [of "idx + 1"] assms(1,2)
      check_with_pattern [where a = a and compile = compile and p = p and m = m and ctx = ctx
        and idx = idx]
    by simp
qed

text \<open>
  C1, as stated, fails in a context that is not negated: there the assertion passes only
  if every manifest matches. With the pattern \<^verbatim>\<open>a+\<close> and the raw fields "aa" and "b", some
  manifest matches, so \<open>negative = (\<not> anyManifestMatches)\<close> holds, and the assertion fails on
  the second manifest.
\<close>

theorem some_but_not_every_manifest_matches:
  "go_Compile ''a+'' = Inr (MatchString (Plus (Literal CHR ''a''))) \<and>
   Negative \<lparr>Manifests = [[RAW \<mapsto> Str ''aa''], [RAW \<mapsto> Str ''b'']], Negative = False,
      FailFast = False, Strict = False, RenderError = None\<rparr> =
     (\<not> anyManifestMatches (MatchString (Plus (Literal CHR ''a'')))
        [[RAW \<mapsto> Str ''aa''], [RAW \<mapsto> Str ''b'']]) \<and>
   Validate go_Compile \<lparr>ErrorMessage = [], ErrorPattern = ''a+''\<rparr>
     \<lparr>Manifests = [[RAW \<mapsto> Str ''aa''], [RAW \<mapsto> Str ''b'']], Negative = False,
      FailFast = False, Strict = False, RenderError = None\<rparr> =
   Inr (False,
     [SplitInfof (setFailFormat False False True False '' to match'') 1 (-1) [''a+'', ''b'']])"
  by (simp add: go_Compile_a_plus anyManifestMatches_def manifestMatches_def index_manifest_def
      Validate_def getManifests_def validateManifests_def check_aa check_b determineSuccess_def)

text \<open>
  C1, amended. For a validator with only \<open>errorPattern\<close> set to a pattern that compiles, on
  a context with no render error whose manifests have a raw field that is a string or
  \<^verbatim>\<open>nil\<close>: \<^verbatim>\<open>Validate\<close> returns, and the assertion passes iff, when the context is negated,
  no manifest matches (\<open>negative = (\<not> anyManifestMatches)\<close>), and when it is not negated, the
  collection is not empty and every manifest matches. The fail-fast flag does not change
  whether it passes.
\<close>

theorem only_pattern_set_on_manifests:
  assumes "ErrorMessage a = []" and "ErrorPattern a \<noteq> []"
    and "compile (ErrorPattern a) = Inr p"
    and "RenderError ctx = None"
    and "list_all rawIsString (Manifests ctx)"
  shows "\<exists>ds. Validate compile a ctx =
           Inr (if Negative ctx then \<not> anyManifestMatches p (Manifests ctx)
                else Manifests ctx \<noteq> [] \<and> everyManifestMatches p (Manifests ctx), ds)"
proof -
  let ?ms = "Manifests ctx"
  have ns: "\<not> skipsManifests a ctx"
    using assms(2) by (simp add: skipsManifests_def)
  have cs: "list_all returned (checksFrom compile a ctx 0 ?ms) \<and>
      list_all passed (checksFrom compile a ctx 0 ?ms) =
        list_all (\<lambda>m. manifestMatches p m \<noteq> Negative ctx) ?ms"
    using assms(2,3,5) by (rule checks_with_pattern)
  from cs obtain es where loop: "manifestsLoop compile a ctx 0 ?ms True [] =
      Inr (list_all (\<lambda>m. manifestMatches p m \<noteq> Negative ctx) ?ms, es)"
    using loop_success [OF ns, of compile 0 ?ms True "[]"] by auto
  have neg: "list_all (\<lambda>m. manifestMatches p m \<noteq> True) ?ms = (\<not> anyManifestMatches p ?ms)"
    by (auto simp add: anyManifestMatches_def list_all_iff list_ex_iff)
  have pos: "list_all (\<lambda>m. manifestMatches p m \<noteq> False) ?ms = everyManifestMatches p ?ms"
    by (auto simp add: everyManifestMatches_def list_all_iff)
  have "\<exists>ds. validateManifests compile a ?ms ctx =
      Inr (if Negative ctx then \<not> anyManifestMatches p ?ms
           else ?ms \<noteq> [] \<and> everyManifestMatches p ?ms, ds)"
  proof (cases "Negative ctx")
    case True
    then show ?thesis
      using loop neg by (simp add: validateManifests_def)
  next
    case False
    then show ?thesis
      using loop pos by (cases "?ms = []") (simp_all add: validateManifests_def)
  qed
  then obtain ds where "validateManifests compile a ?ms ctx =
      Inr (if Negative ctx then \<not> anyManifestMatches p ?ms
           else ?ms \<noteq> [] \<and> everyManifestMatches p ?ms, ds)"
    by blast
  then show ?thesis
    using assms(1,4) by (simp add: Validate_def getManifests_def)
qed

theorem only_pattern_set_on_manifests_witness:
  "(\<exists>ds. Validate go_Compile \<lparr>ErrorMessage = [], ErrorPattern = ''a+''\<rparr>
     \<lparr>Manifests = [[RAW \<mapsto> Str ''aa''], [RAW \<mapsto> Str ''xay'']], Negative = False, FailFast = False,
      Strict = False, RenderError = None\<rparr> = Inr (True, ds)) \<and>
   (\<exists>ds. Validate go_Compile \<lparr>ErrorMessage = [], ErrorPattern = ''a+''\<rparr>
     \<lparr>Manifests = [[RAW \<mapsto> Str ''b''], Map.empty], Negative = True, FailFast = True,
      Strict = False, RenderError = None\<rparr> = Inr (True, ds)) \<and>
   (\<exists>ds. Validate go_Compile \<lparr>ErrorMessage = [], ErrorPattern = ''a+''\<rparr>
     \<lparr>Manifests = [[RAW \<mapsto> Str ''aa''], [RAW \<mapsto> Str ''b'']], Negative = False, FailFast = True,
      Strict = False, RenderError = None\<rparr> = Inr (False, ds))"
  using
    only_pattern_set_on_manifests
      [where compile = go_Compile and a = "\<lparr>ErrorMessage = [], ErrorPattern = ''a+''\<rparr>"
         and p = "MatchString (Plus (Literal CHR ''a''))"
         and ctx = "\<lparr>Manifests = [[RAW \<mapsto> Str ''aa''], [RAW \<mapsto> Str ''xay'']], Negative = False,
           FailFast = False, Strict = False, RenderError = None\<rparr>"]
    only_pattern_set_on_manifests
      [where compile = go_Compile and a = "\<lparr>ErrorMessage = [], ErrorPattern = ''a+''\<rparr>"
         and p = "MatchString (Plus (Literal CHR ''a''))"
         and ctx = "\<lparr>Manifests = [[RAW \<mapsto> Str ''b''], Map.empty], Negative = True,
           FailFast = True, Strict = False, RenderError = None\<rparr>"]
    only_pattern_set_on_manifests
      [where compile = go_Compile and a = "\<lparr>ErrorMessage = [], ErrorPattern = ''a+''\<rparr>"
         and p = "MatchString (Plus (Literal CHR ''a''))"
         and ctx = "\<lparr>Manifests = [[RAW \<mapsto> Str ''aa''], [RAW \<mapsto> Str ''b'']], Negative = False,
           FailFast = True, Strict = False, RenderError = None\<rparr>"]
  by (simp add: go_Compile_a_plus anyManifestMatches_def everyManifestMatches_def
      manifestMatches_def rawIsString_def index_manifest_def)


end
